theory Spec2Isabelle
  imports Complex_Main
begin

section \<open>Data model of script.js\<close>

text \<open>
  A cell of the board is \<open>null\<close> or a number. Tile values are JavaScript numbers that only
  ever hold integers (2, 4 and their sums), so a cell is an \<open>int option\<close> with \<open>None\<close>
  for \<open>null\<close>. The board is the array of rows \<open>board[r][c]\<close>.
\<close>

type_synonym cell = "int option"
type_synonym grid = "cell list list"

definition SIZE :: nat where
  "SIZE = 4"

text \<open>An entry of \<open>historyStack\<close>: \<open>{board, score, timeRemaining, isTimedGame}\<close>, where
  \<open>timeRemaining\<close> is \<open>null\<close> for a game that is not timed.\<close>

record snapshot =
  snap_board :: grid
  snap_score :: int
  snap_timeRemaining :: "int option"
  snap_isTimedGame :: bool

text \<open>
  The object stored under the key \<open>gameState\<close> of localStorage. The browser keeps its JSON
  text; the model keeps the parsed object. A field that \<open>resumeGame\<close> tests with
  \<open>typeof\<close> or \<open>Array.isArray\<close> is an option, \<open>None\<close> standing for a value that is missing
  or of another type; the two flags read through \<open>!!\<close> are the truth values they coerce to.
\<close>

record saved =
  sv_board :: "grid option"
  sv_score :: "int option"
  sv_bestScore :: "int option"
  sv_isTimedGame :: bool
  sv_timeRemaining :: "int option"
  sv_won :: bool
  sv_historyStack :: "snapshot list option"
  sv_undosRemaining :: "int option"

text \<open>
  \<open>timerInterval\<close> is \<open>null\<close> or the handle of one of the two interval callbacks of the
  script: the one installed by \<open>startTimer\<close>, which saves the game at every tick, and the
  one installed by the keep-playing button, which does not.
\<close>

datatype timer = NoTimer | GameTimer | KeepTimer

text \<open>The three texts \<open>showMessage\<close> is called with: \<open>You win!\<close>, \<open>Game Over\<close> and
  \<open>Time's up! Game Over\<close>.\<close>

datatype message = YouWin | GameOver | TimesUp

datatype key = ArrowLeft | ArrowRight | ArrowUp | ArrowDown | OtherKey

text \<open>
  The global variables of the script, the part of the page the game logic reads back
  (the text and the \<open>display\<close> style of the message overlay) and the two keys of
  localStorage the game writes. Rendering, sound, vibration and confetti change none of
  these and are left out.
\<close>

record game =
  board :: grid
  score :: int
  bestScore :: int
  won :: bool
  historyStack :: "snapshot list"
  undosRemaining :: int
  isTimedGame :: bool
  timeRemaining :: int
  timerInterval :: timer
  messageText :: "message option"
  messageShown :: bool
  ls_bestScore :: "int option"
  ls_gameState :: "saved option"

text \<open>One call of \<open>spawnTile\<close> draws two random numbers: the index
  \<open>Math.floor(Math.random() * emptyCells.length)\<close> and whether \<open>Math.random() < 0.9\<close>.\<close>

type_synonym draw = "nat \<times> bool"

section \<open>Persistence and the message overlay\<close>

text \<open>
  \<open>saveGameState\<close> builds the object and writes its JSON text. The write is taken to
  succeed; were it to throw, the script would log a warning and leave the stored game as
  it was.
\<close>

definition saveGameState :: "game \<Rightarrow> game" where
  "saveGameState st =
     st\<lparr>ls_gameState := Some
       \<lparr>sv_board = Some (board st),
        sv_score = Some (score st),
        sv_bestScore = Some (bestScore st),
        sv_isTimedGame = isTimedGame st,
        sv_timeRemaining = Some (timeRemaining st),
        sv_won = won st,
        sv_historyStack = Some (map (\<lambda>item.
           \<lparr>snap_board = snap_board item, snap_score = snap_score item,
            snap_timeRemaining = snap_timeRemaining item,
            snap_isTimedGame = snap_isTimedGame item\<rparr>) (historyStack st)),
        sv_undosRemaining = Some (undosRemaining st)\<rparr>\<rparr>"

definition clearGameState :: "game \<Rightarrow> game" where
  "clearGameState st = st\<lparr>ls_gameState := None\<rparr>"

definition stopTimer :: "game \<Rightarrow> game" where
  "stopTimer st = st\<lparr>timerInterval := NoTimer\<rparr>"

text \<open>\<open>/win/i.test(text)\<close> and \<open>text.includes('win')\<close> hold for \<open>You win!\<close> only.\<close>

fun is_win :: "message \<Rightarrow> bool" where
  "is_win YouWin = True"
| "is_win GameOver = False"
| "is_win TimesUp = False"

definition showMessage :: "message \<Rightarrow> game \<Rightarrow> game" where
  "showMessage text st =
     (let st1 = st\<lparr>messageText := Some text\<rparr>;
          st2 = (if isTimedGame st1 \<and> \<not> is_win text then stopTimer st1 else st1);
          st3 = (if \<not> is_win text then clearGameState st2 else st2)
      in st3\<lparr>messageShown := True\<rparr>)"

definition hideMessage :: "game \<Rightarrow> game" where
  "hideMessage st = st\<lparr>messageShown := False\<rparr>"

definition updateScoreDisplay :: "game \<Rightarrow> game" where
  "updateScoreDisplay st =
     (if score st > bestScore st
      then st\<lparr>bestScore := score st, ls_bestScore := Some (score st)\<rparr>
      else st)"

section \<open>Resolving one line\<close>

text \<open>\<open>arr[i] *= 2\<close>: a number is doubled, and \<open>null * 2\<close> is \<open>0\<close>.\<close>

definition times2 :: "cell \<Rightarrow> int" where
  "times2 c = (case c of None \<Rightarrow> 0 | Some v \<Rightarrow> 2 * v)"

text \<open>
  The loop \<open>for (let i = 0; i < arr.length - 1; i++)\<close> of \<open>slideAndCombine\<close>, from index
  \<open>i\<close> on. The bound is written \<open>i + 1 < length arr\<close>, which is \<open>i < arr.length - 1\<close> also
  for the empty array, where the JavaScript bound is \<open>-1\<close>.
\<close>

function combine_loop :: "nat \<Rightarrow> cell list \<Rightarrow> game \<Rightarrow> cell list \<times> game" where
  "combine_loop i arr st =
     (if i + 1 < length arr then
        (if arr ! i = arr ! (i + 1) then
           (let v = times2 (arr ! i);
                arr1 = arr[i := Some v];
                st1 = st\<lparr>score := score st + v\<rparr>;
                arr2 = arr1[i + 1 := None];
                st2 = (if v = 2048 \<and> \<not> won st1
                       then showMessage YouWin (st1\<lparr>won := True\<rparr>) else st1)
            in combine_loop (i + 1) arr2 st2)
         else combine_loop (i + 1) arr st)
      else (arr, st))"
  by pat_completeness auto
termination
  by (relation "measure (\<lambda>(i, arr, st). length arr - i)") auto

declare combine_loop.simps [simp del]

definition slideAndCombine :: "cell list \<Rightarrow> game \<Rightarrow> cell list \<times> game" where
  "slideAndCombine array st =
     (let arr = filter (\<lambda>x. x \<noteq> None) array;
          (arr', st') = combine_loop 0 arr st;
          newArr = filter (\<lambda>x. x \<noteq> None) arr'
      in (newArr @ replicate (SIZE - length newArr) None, st'))"

text \<open>\<open>a[i]\<close> for an index that may lie outside the array: \<open>undefined\<close> is \<open>None\<close>.\<close>

definition js_index :: "'a list \<Rightarrow> nat \<Rightarrow> 'a option" where
  "js_index xs i = (if i < length xs then Some (xs ! i) else None)"

definition arraysEqual :: "cell list \<Rightarrow> cell list \<Rightarrow> bool" where
  "arraysEqual a b = list_all (\<lambda>i. js_index a i = js_index b i) [0..<length a]"

section \<open>The four moves\<close>

text \<open>
  Each move function walks the indices \<open>0 .. SIZE - 1\<close>; the loop body is the step
  function and the loop is its \<open>fold\<close> over the index list. The pair threaded through
  the loop is the local \<open>changed\<close> and the global state.
\<close>

definition moveLeft_row :: "nat \<Rightarrow> bool \<times> game \<Rightarrow> bool \<times> game" where
  "moveLeft_row r cs =
     (let (changed, st) = cs;
          row = board st ! r;
          (newRow, st1) = slideAndCombine row st
      in if \<not> arraysEqual row newRow
         then (True, st1\<lparr>board := (board st1)[r := newRow]\<rparr>)
         else (changed, st1))"

definition moveLeft :: "game \<Rightarrow> bool \<times> game" where
  "moveLeft st = fold moveLeft_row [0..<SIZE] (False, st)"

definition moveRight_row :: "nat \<Rightarrow> bool \<times> game \<Rightarrow> bool \<times> game" where
  "moveRight_row r cs =
     (let (changed, st) = cs;
          row = rev (board st ! r);
          (newRow0, st1) = slideAndCombine row st;
          newRow = rev newRow0
      in if \<not> arraysEqual (board st1 ! r) newRow
         then (True, st1\<lparr>board := (board st1)[r := newRow]\<rparr>)
         else (changed, st1))"

definition moveRight :: "game \<Rightarrow> bool \<times> game" where
  "moveRight st = fold moveRight_row [0..<SIZE] (False, st)"

text \<open>The inner loop of \<open>moveUp\<close> and \<open>moveDown\<close>, which writes the new column back cell
  by cell.\<close>

definition write_cell :: "nat \<Rightarrow> cell list \<Rightarrow> nat \<Rightarrow> bool \<times> game \<Rightarrow> bool \<times> game" where
  "write_cell c newColumn r cs =
     (let (changed, st) = cs
      in if board st ! r ! c \<noteq> newColumn ! r
         then (True, st\<lparr>board := (board st)[r := (board st ! r)[c := newColumn ! r]]\<rparr>)
         else (changed, st))"

definition moveUp_col :: "nat \<Rightarrow> bool \<times> game \<Rightarrow> bool \<times> game" where
  "moveUp_col c cs =
     (let (changed, st) = cs;
          column = map (\<lambda>r. board st ! r ! c) [0..<SIZE];
          (newColumn, st1) = slideAndCombine column st
      in fold (write_cell c newColumn) [0..<SIZE] (changed, st1))"

definition moveUp :: "game \<Rightarrow> bool \<times> game" where
  "moveUp st = fold moveUp_col [0..<SIZE] (False, st)"

definition moveDown_col :: "nat \<Rightarrow> bool \<times> game \<Rightarrow> bool \<times> game" where
  "moveDown_col c cs =
     (let (changed, st) = cs;
          column = rev (map (\<lambda>r. board st ! r ! c) [0..<SIZE]);
          (newColumn0, st1) = slideAndCombine column st;
          newColumn = rev newColumn0
      in fold (write_cell c newColumn) [0..<SIZE] (changed, st1))"

definition moveDown :: "game \<Rightarrow> bool \<times> game" where
  "moveDown st = fold moveDown_col [0..<SIZE] (False, st)"

section \<open>Spawning and the end of the game\<close>

definition createEmptyBoard :: grid where
  "createEmptyBoard = replicate SIZE (replicate SIZE None)"

text \<open>
  The index drawn is \<open>Math.floor(Math.random() * emptyCells.length)\<close>, a number below the
  length; the model takes any natural number and reduces it modulo the length, so that
  every draw names a cell of the list.
\<close>

definition spawnTile :: "draw \<Rightarrow> game \<Rightarrow> game" where
  "spawnTile d st =
     (let emptyCells = [(r, c). r \<leftarrow> [0..<SIZE], c \<leftarrow> [0..<SIZE], board st ! r ! c = None]
      in if emptyCells = [] then st
         else (let (r, c) = emptyCells ! (fst d mod length emptyCells)
               in st\<lparr>board := (board st)[r := (board st ! r)[c := Some (if snd d then 2 else 4)]]\<rparr>))"

definition isGameOver :: "game \<Rightarrow> bool" where
  "isGameOver st =
     (if list_ex (\<lambda>r. list_ex (\<lambda>c. board st ! r ! c = None) [0..<SIZE]) [0..<SIZE] then False
      else if list_ex (\<lambda>r. list_ex (\<lambda>c.
                (r < SIZE - 1 \<and> board st ! (r + 1) ! c = board st ! r ! c) \<or>
                (c < SIZE - 1 \<and> board st ! r ! (c + 1) = board st ! r ! c)) [0..<SIZE]) [0..<SIZE]
           then False
      else True)"

section \<open>Timer\<close>

definition startTimer :: "int option \<Rightarrow> game \<Rightarrow> game" where
  "startTimer initial st =
     (let st1 = stopTimer st;
          st2 = st1\<lparr>timeRemaining := (case initial of Some n \<Rightarrow> n | None \<Rightarrow> 300)\<rparr>
      in st2\<lparr>timerInterval := GameTimer\<rparr>)"

text \<open>One firing of the interval callback that is installed, if any.\<close>

definition tick :: "game \<Rightarrow> game" where
  "tick st =
     (case timerInterval st of
        NoTimer \<Rightarrow> st
      | GameTimer \<Rightarrow>
          (let st1 = st\<lparr>timeRemaining := timeRemaining st - 1\<rparr>;
               st2 = saveGameState st1
           in if timeRemaining st2 \<le> 0
              then showMessage TimesUp (st2\<lparr>timerInterval := NoTimer\<rparr>) else st2)
      | KeepTimer \<Rightarrow>
          (let st1 = st\<lparr>timeRemaining := timeRemaining st - 1\<rparr>
           in if timeRemaining st1 \<le> 0
              then showMessage TimesUp (st1\<lparr>timerInterval := NoTimer\<rparr>) else st1))"

section \<open>Moves, undo, new game and resume\<close>

definition take_snapshot :: "game \<Rightarrow> snapshot" where
  "take_snapshot st =
     \<lparr>snap_board = board st, snap_score = score st,
      snap_timeRemaining = (if isTimedGame st then Some (timeRemaining st) else None),
      snap_isTimedGame = isTimedGame st\<rparr>"

definition move :: "key \<Rightarrow> game \<Rightarrow> bool \<times> game" where
  "move k st =
     (case k of
        ArrowLeft \<Rightarrow> moveLeft st
      | ArrowRight \<Rightarrow> moveRight st
      | ArrowUp \<Rightarrow> moveUp st
      | ArrowDown \<Rightarrow> moveDown st
      | OtherKey \<Rightarrow> (False, st))"

definition push_history :: "snapshot \<Rightarrow> game \<Rightarrow> game" where
  "push_history snapshot st =
     (let st1 = st\<lparr>historyStack := historyStack st @ [snapshot]\<rparr>
      in if length (historyStack st1) > 3
         then st1\<lparr>historyStack := tl (historyStack st1)\<rparr> else st1)"

definition handleKey :: "key \<Rightarrow> draw \<Rightarrow> game \<Rightarrow> game" where
  "handleKey k d st =
     (if messageShown st then st
      else
        (let snapshot = take_snapshot st;
             (moved, st1) = move k st
         in if moved then
              (let st2 = push_history snapshot st1;
                   st3 = spawnTile d st2;
                   st4 = updateScoreDisplay st3;
                   st5 = saveGameState st4
               in if isGameOver st5 then showMessage GameOver st5 else st5)
            else st1))"

definition undoMove :: "game \<Rightarrow> game" where
  "undoMove st =
     (if historyStack st = [] \<or> undosRemaining st \<le> 0 then st
      else
        (let lastState = last (historyStack st);
             st1 = st\<lparr>historyStack := butlast (historyStack st),
                      undosRemaining := undosRemaining st - 1,
                      board := snap_board lastState,
                      score := snap_score lastState\<rparr>;
             st2 = (if snap_isTimedGame lastState
                    then (let st1a = st1\<lparr>isTimedGame := True\<rparr>;
                              st1b = st1a\<lparr>timeRemaining :=
                                (case snap_timeRemaining lastState of
                                   Some t \<Rightarrow> t | None \<Rightarrow> timeRemaining st1a)\<rparr>
                          in startTimer (Some (timeRemaining st1b)) st1b)
                    else st1);
             st3 = updateScoreDisplay st2
         in saveGameState st3))"

definition initGame :: "draw \<Rightarrow> draw \<Rightarrow> game \<Rightarrow> game" where
  "initGame d1 d2 st =
     (let st1 = st\<lparr>board := createEmptyBoard, score := 0, won := False\<rparr>;
          st2 = spawnTile d1 st1;
          st3 = spawnTile d2 st2;
          st4 = hideMessage st3;
          st5 = updateScoreDisplay st4;
          st6 = saveGameState st5
      in st6\<lparr>historyStack := [], undosRemaining := 3\<rparr>)"

text \<open>\<open>customMinutes\<close> is a number or \<open>undefined\<close>; a number that is not positive counts as
  none.\<close>

definition startGame :: "bool \<Rightarrow> rat option \<Rightarrow> draw \<Rightarrow> draw \<Rightarrow> game \<Rightarrow> game" where
  "startGame timed customMinutes d1 d2 st =
     (let st1 = clearGameState st;
          st2 = st1\<lparr>isTimedGame := timed\<rparr>;
          st3 = initGame d1 d2 st2
      in if isTimedGame st3 then
           (let seconds = (case customMinutes of
                             Some m \<Rightarrow> if m > 0 then Some (\<lfloor>m * 60\<rfloor>) else None
                           | None \<Rightarrow> None)
            in startTimer seconds st3)
         else stopTimer st3)"

definition resumeGame :: "game \<Rightarrow> game" where
  "resumeGame st =
     (case ls_gameState st of
        None \<Rightarrow> st
      | Some state \<Rightarrow>
          (let st1 = st\<lparr>board := (case sv_board state of Some b \<Rightarrow> b | None \<Rightarrow> createEmptyBoard)\<rparr>;
               st2 = st1\<lparr>score := (case sv_score state of Some s \<Rightarrow> s | None \<Rightarrow> 0)\<rparr>;
               st3 = st2\<lparr>bestScore := (case sv_bestScore state of Some b \<Rightarrow> b | None \<Rightarrow> bestScore st2)\<rparr>;
               st4 = st3\<lparr>isTimedGame := sv_isTimedGame state\<rparr>;
               st5 = st4\<lparr>timeRemaining := (case sv_timeRemaining state of Some t \<Rightarrow> t | None \<Rightarrow> 300)\<rparr>;
               st6 = st5\<lparr>won := sv_won state\<rparr>;
               st7 = st6\<lparr>historyStack :=
                       (case sv_historyStack state of
                          Some h \<Rightarrow> map (\<lambda>item.
                            \<lparr>snap_board = snap_board item, snap_score = snap_score item,
                             snap_timeRemaining = snap_timeRemaining item,
                             snap_isTimedGame = snap_isTimedGame item\<rparr>) h
                        | None \<Rightarrow> [])\<rparr>;
               st8 = st7\<lparr>undosRemaining := (case sv_undosRemaining state of Some u \<Rightarrow> u | None \<Rightarrow> 3)\<rparr>;
               st9 = updateScoreDisplay st8;
               st10 = hideMessage st9
           in if isTimedGame st10 then startTimer (Some (timeRemaining st10)) st10
              else stopTimer st10))"

section \<open>Buttons and page load\<close>

definition keepPlaying :: "game \<Rightarrow> game" where
  "keepPlaying st =
     (let st1 = hideMessage st
      in if isTimedGame st1 \<and> timerInterval st1 = NoTimer
         then st1\<lparr>timerInterval := KeepTimer\<rparr> else st1)"

definition homeBtn :: "game \<Rightarrow> game" where
  "homeBtn st =
     (let st1 = saveGameState st
      in if isTimedGame st1 then stopTimer st1 else st1)"

definition exitBtn :: "game \<Rightarrow> game" where
  "exitBtn st = clearGameState st"

definition initStorage :: "game \<Rightarrow> game" where
  "initStorage st =
     updateScoreDisplay
       (st\<lparr>bestScore := (case ls_bestScore st of Some b \<Rightarrow> b | None \<Rightarrow> 0)\<rparr>)"

text \<open>
  Loading the page: the globals take the initial values the script gives them,
  localStorage is what the previous page left, and \<open>initStorage\<close> runs. Whether the
  overlay counts as shown before the first \<open>hideMessage\<close> depends on the page's markup,
  so it is a parameter.
\<close>

definition initial :: "bool \<Rightarrow> int option \<Rightarrow> saved option \<Rightarrow> game" where
  "initial shown best state =
     \<lparr>board = [], score = 0, bestScore = 0, won = False, historyStack = [],
      undosRemaining = 3, isTimedGame = False, timeRemaining = 300,
      timerInterval = NoTimer, messageText = None, messageShown = shown,
      ls_bestScore = best, ls_gameState = state\<rparr>"

definition pageLoad :: "bool \<Rightarrow> game \<Rightarrow> game" where
  "pageLoad shown st = initStorage (initial shown (ls_bestScore st) (ls_gameState st))"

section \<open>The game as a transition system\<close>

text \<open>
  Everything that can happen to the state between two events of the page: a key (with
  the random draw of the spawn), the undo button, the resume button, a new game (the
  mode, the custom minutes and the draws of the two first tiles; the retry button is the
  same call), a tick of the installed timer, the keep-playing, home and exit buttons, and
  a reload of the page. A swipe (\<open>handleTouchEnd\<close>) runs the steps of \<open>handleKey\<close> for the
  arrow key of its direction and is the same event.
\<close>

datatype event =
    Key key draw
  | Undo
  | Resume
  | NewGame bool "rat option" draw draw
  | Tick
  | KeepPlaying
  | Home
  | Exit
  | Load bool

fun fire :: "event \<Rightarrow> game \<Rightarrow> game" where
  "fire (Key k d) st = handleKey k d st"
| "fire Undo st = undoMove st"
| "fire Resume st = resumeGame st"
| "fire (NewGame timed customMinutes d1 d2) st = startGame timed customMinutes d1 d2 st"
| "fire Tick st = tick st"
| "fire KeepPlaying st = keepPlaying st"
| "fire Home st = homeBtn st"
| "fire Exit st = exitBtn st"
| "fire (Load shown) st = pageLoad shown st"

text \<open>
  The move functions index \<open>board[r][c]\<close> for all \<open>r, c < SIZE\<close>. On a board of four rows
  of four cells every index is in range; on the empty board of a freshly loaded page
  \<open>board[0]\<close> is \<open>undefined\<close> and the handler throws before it changes anything. The
  model of a key is therefore used on boards of the right shape only.
\<close>

definition wf_board :: "grid \<Rightarrow> bool" where
  "wf_board b = (length b = SIZE \<and> list_all (\<lambda>row. length row = SIZE) b)"

fun enabled :: "event \<Rightarrow> game \<Rightarrow> bool" where
  "enabled (Key k d) st = wf_board (board st)"
| "enabled e st = True"

inductive reachable :: "game \<Rightarrow> bool" where
  first: "reachable (initStorage (initial shown None None))"
| step: "reachable st \<Longrightarrow> enabled e st \<Longrightarrow> reachable (fire e st)"


section \<open>Auxiliary notions for the proofs\<close>

text \<open>The tiles of a line: its cells that are not \<open>null\<close>, in order.\<close>

definition tiles :: "cell list \<Rightarrow> int list" where
  "tiles line = map the (filter (\<lambda>x. x \<noteq> None) line)"

text \<open>
  A closed form of the merge loop, proved equal to it below (\<open>combine_loop_closed\<close>):
  the sweep cuts the tiles into groups, a pair of equal neighbours or a single tile, from
  left to right. A pair leaves its sum and a hole in the array and has the effect of one
  merge on the state.
\<close>

fun pairing :: "int list \<Rightarrow> int list list" where
  "pairing (x # y # zs) = (if x = y then [x, y] # pairing zs else [x] # pairing (y # zs))"
| "pairing [x] = [[x]]"
| "pairing [] = []"

definition merge_effect :: "int list \<Rightarrow> game \<Rightarrow> game" where
  "merge_effect g st =
     (if length g = 2 then
        (let st1 = st\<lparr>score := score st + sum_list g\<rparr>
         in if sum_list g = 2048 \<and> \<not> won st1
            then showMessage YouWin (st1\<lparr>won := True\<rparr>) else st1)
      else st)"

definition slots :: "int list \<Rightarrow> cell list" where
  "slots g = (if length g = 2 then [Some (sum_list g), None] else map Some g)"

text \<open>What a move function leaves alone, and that it never clears \<open>won\<close>.\<close>

definition move_frame :: "game \<Rightarrow> game \<Rightarrow> bool" where
  "move_frame s s' =
     (bestScore s' = bestScore s \<and> historyStack s' = historyStack s \<and>
      undosRemaining s' = undosRemaining s \<and> isTimedGame s' = isTimedGame s \<and>
      timeRemaining s' = timeRemaining s \<and> timerInterval s' = timerInterval s \<and>
      ls_bestScore s' = ls_bestScore s \<and> ls_gameState s' = ls_gameState s \<and>
      (won s \<longrightarrow> won s'))"

text \<open>
  The invariant of the reachable states. For the stored game it says that the stored
  best score is the current one, that the stored score does not exceed it, that the
  stored history and undo counter are in range, and that a game that is won is stored
  as won.
\<close>

definition saved_ok :: "game \<Rightarrow> saved \<Rightarrow> bool" where
  "saved_ok st sv =
     (sv_bestScore sv = Some (bestScore st) \<and>
      (case sv_score sv of Some s \<Rightarrow> s \<le> bestScore st | None \<Rightarrow> False) \<and>
      (case sv_historyStack sv of Some h \<Rightarrow> length h \<le> 3 | None \<Rightarrow> False) \<and>
      (case sv_undosRemaining sv of
         Some u \<Rightarrow> 0 \<le> u \<and> u \<le> undosRemaining st | None \<Rightarrow> False) \<and>
      (won st \<longrightarrow> sv_won sv))"

definition state_inv :: "game \<Rightarrow> bool" where
  "state_inv st =
     (0 \<le> bestScore st \<and> score st \<le> bestScore st \<and>
      bestScore st = (case ls_bestScore st of Some b \<Rightarrow> b | None \<Rightarrow> 0) \<and>
      length (historyStack st) \<le> 3 \<and>
      0 \<le> undosRemaining st \<and> undosRemaining st \<le> 3 \<and>
      (case ls_gameState st of None \<Rightarrow> True | Some sv \<Rightarrow> saved_ok st sv))"

text \<open>The local \<open>moved\<close> of \<open>handleKey\<close>: the overlay is hidden and the move function
  reports a change.\<close>

definition moved :: "key \<Rightarrow> game \<Rightarrow> bool" where
  "moved k st = (\<not> messageShown st \<and> fst (move k st))"


section \<open>Example states\<close>

text \<open>Concrete lines and states on which the theorems below are instantiated.\<close>

definition line_2224 :: "cell list" where
  "line_2224 = [Some 2, Some 2, Some 4, None]"

definition c3_state :: game where
  "c3_state = (initial False None None)\<lparr>board :=
     [[Some 2, None, None, None], [Some 4, Some 2, None, None],
      [None, None, None, None], [Some 2, Some 4, Some 2, Some 4]]\<rparr>"










section \<open>The merge loop in closed form\<close>

lemma slots_simps [simp]: "slots [x, y] = [Some (x + y), None]" "slots [x] = [Some x]"
  by (simp_all add: slots_def)

lemma merge_effect_single [simp]: "merge_effect [x] st = st"
  by (simp add: merge_effect_def)

lemma combine_loop_end: "length arr \<le> i + 1 \<Longrightarrow> combine_loop i arr st = (arr, st)"
  by (subst combine_loop.simps) simp

lemma combine_loop_skip:
  "i + 1 < length arr \<Longrightarrow> arr ! i \<noteq> arr ! (i + 1) \<Longrightarrow>
   combine_loop i arr st = combine_loop (i + 1) arr st"
  by (subst combine_loop.simps) simp

lemma combine_loop_merge:
  "combine_loop (length pre) (pre @ Some x # Some x # rest) st =
   combine_loop (length pre + 1) (pre @ Some (2 * x) # None # rest) (merge_effect [x, x] st)"
  by (subst combine_loop.simps)
     (simp add: nth_append list_update_append times2_def merge_effect_def Let_def)

lemma combine_loop_after_merge:
  "combine_loop (length pre + 1) (pre @ c # None # map Some zs) st =
   combine_loop (length (pre @ [c, None])) ((pre @ [c, None]) @ map Some zs) st"
proof (cases zs)
  case Nil
  then show ?thesis by (simp add: combine_loop_end)
next
  case (Cons z zs')
  have "combine_loop (length pre + 1) (pre @ c # None # map Some zs) st =
        combine_loop (length pre + 1 + 1) (pre @ c # None # map Some zs) st"
    by (rule combine_loop_skip) (simp_all add: Cons nth_append)
  then show ?thesis by simp
qed

lemma combine_loop_closed:
  "combine_loop (length pre) (pre @ map Some vs) st =
   (pre @ concat (map slots (pairing vs)), fold merge_effect (pairing vs) st)"
proof (induction vs arbitrary: pre st rule: pairing.induct)
  case (1 x y zs)
  show ?case
  proof (cases "x = y")
    case True
    have "combine_loop (length pre) (pre @ map Some (x # y # zs)) st =
          combine_loop (length (pre @ [Some (2 * x), None])) ((pre @ [Some (2 * x), None]) @ map Some zs)
            (merge_effect [x, x] st)"
      using True combine_loop_merge [of pre x "map Some zs" st]
            combine_loop_after_merge [of pre "Some (2 * x)" zs "merge_effect [x, x] st"]
      by simp
    also have "\<dots> = ((pre @ [Some (2 * x), None]) @ concat (map slots (pairing zs)),
                     fold merge_effect (pairing zs) (merge_effect [x, x] st))"
      using "1.IH"(1) [OF True] by blast
    finally show ?thesis using True by simp
  next
    case False
    have "combine_loop (length pre) (pre @ map Some (x # y # zs)) st =
          combine_loop (length pre + 1) (pre @ map Some (x # y # zs)) st"
      by (rule combine_loop_skip) (simp_all add: nth_append False)
    also have "\<dots> = combine_loop (length (pre @ [Some x])) ((pre @ [Some x]) @ map Some (y # zs)) st"
      by simp
    also have "\<dots> = ((pre @ [Some x]) @ concat (map slots (pairing (y # zs))),
                     fold merge_effect (pairing (y # zs)) st)"
      using "1.IH"(2) [OF False] by blast
    finally show ?thesis using False by simp
  qed
next
  case (2 x)
  show ?case by (simp add: combine_loop_end)
next
  case 3
  show ?case by (simp add: combine_loop_end)
qed


lemma filter_tiles: "filter (\<lambda>x. x \<noteq> None) line = map Some (tiles line)"
  unfolding tiles_def by (induction line) auto

lemma tiles_map_Some [simp]: "tiles (map Some vs) = vs"
  unfolding tiles_def by (induction vs) auto

lemma tiles_map_Some_comp [simp]: "tiles (map (Some \<circ> f) xs) = map f xs"
  unfolding tiles_def by (induction xs) auto

lemma tiles_append [simp]: "tiles (xs @ ys) = tiles xs @ tiles ys"
  by (simp add: tiles_def)

lemma tiles_replicate_None [simp]: "tiles (replicate n None) = []"
  by (simp add: tiles_def)

lemma concat_pairing: "concat (pairing vs) = vs"
  by (induction vs rule: pairing.induct) auto

lemma pairing_groups: "g \<in> set (pairing vs) \<Longrightarrow> (\<exists>x. g = [x] \<or> g = [x, x])"
  by (induction vs rule: pairing.induct) (auto split: if_splits)

lemma tiles_slots: "tiles (concat (map slots (pairing vs))) = map sum_list (pairing vs)"
  by (induction vs rule: pairing.induct) (auto simp: tiles_def)

lemma slideAndCombine_closed:
  "slideAndCombine line st =
     (map Some (map sum_list (pairing (tiles line))) @
        replicate (SIZE - length (pairing (tiles line))) None,
      fold merge_effect (pairing (tiles line)) st)"
proof -
  have "combine_loop 0 (map Some (tiles line)) st =
        (concat (map slots (pairing (tiles line))), fold merge_effect (pairing (tiles line)) st)"
    using combine_loop_closed [of "[]" "tiles line" st] by simp
  then show ?thesis
    by (simp add: slideAndCombine_def filter_tiles tiles_slots del: not_None_eq)
qed

lemma score_showMessage [simp]: "score (showMessage m st) = score st"
  by (simp add: showMessage_def stopTimer_def clearGameState_def Let_def)

lemma score_merge_effect:
  "score (merge_effect g st) = score st + (if length g = 2 then sum_list g else 0)"
  by (simp add: merge_effect_def Let_def)

lemma score_fold_merge_effect:
  "score (fold merge_effect gs st) =
   score st + sum_list (map sum_list (filter (\<lambda>g. length g = 2) gs))"
  by (induction gs arbitrary: st) (simp_all add: score_merge_effect)

lemma length_pairing_le: "length (pairing vs) \<le> length vs"
  by (induction vs rule: pairing.induct) auto

lemma pairing_no_merge:
  "length vs \<le> length (pairing vs) \<Longrightarrow> fold merge_effect (pairing vs) st = st"
proof (induction vs rule: pairing.induct)
  case (1 x y zs)
  show ?case
  proof (cases "x = y")
    case True
    with "1.prems" length_pairing_le [of zs] show ?thesis by simp
  next
    case False
    with 1 show ?thesis by simp
  qed
qed simp_all

lemma arraysEqual_iff: "arraysEqual a b \<longleftrightarrow> length a \<le> length b \<and> a = take (length a) b"
proof
  assume eq: "arraysEqual a b"
  have all: "\<And>i. i < length a \<Longrightarrow> js_index a i = js_index b i"
    using eq by (simp add: arraysEqual_def list_all_iff)
  have len: "length a \<le> length b"
  proof (rule ccontr)
    assume "\<not> length a \<le> length b"
    then have "length b < length a" by simp
    with all [of "length b"] show False by (simp add: js_index_def split: if_splits)
  qed
  moreover have "a = take (length a) b"
  proof (rule nth_equalityI)
    show "length a = length (take (length a) b)" using len by simp
    fix i assume "i < length a"
    with all [of i] len show "a ! i = take (length a) b ! i"
      by (simp add: js_index_def split: if_splits)
  qed
  ultimately show "length a \<le> length b \<and> a = take (length a) b" by simp
next
  assume r: "length a \<le> length b \<and> a = take (length a) b"
  then have "\<And>i. i < length a \<Longrightarrow> a ! i = b ! i"
    by (metis nth_take)
  with r show "arraysEqual a b"
    by (auto simp add: arraysEqual_def list_all_iff js_index_def)
qed

lemma length_tiles_take: "length (tiles (take n xs)) \<le> length (tiles xs)"
proof -
  have "tiles xs = tiles (take n xs) @ tiles (drop n xs)"
    by (metis tiles_append append_take_drop_id)
  then show ?thesis by simp
qed

lemma slideAndCombine_unchanged:
  assumes "arraysEqual line (fst (slideAndCombine line st))"
  shows "snd (slideAndCombine line st) = st"
proof -
  let ?gs = "pairing (tiles line)"
  let ?out = "map Some (map sum_list ?gs) @ replicate (SIZE - length ?gs) None"
  have "line = take (length line) ?out"
    using assms by (simp add: slideAndCombine_closed arraysEqual_iff)
  then have "length (tiles line) = length (tiles (take (length line) ?out))" by simp
  also have "\<dots> \<le> length (tiles ?out)" by (rule length_tiles_take)
  also have "\<dots> = length ?gs" by simp
  finally have "fold merge_effect ?gs st = st" by (rule pairing_no_merge)
  then show ?thesis by (simp add: slideAndCombine_closed)
qed

lemma length_slideAndCombine:
  "length (fst (slideAndCombine line st)) = max SIZE (length (pairing (tiles line)))"
  by (simp add: slideAndCombine_closed)

lemma length_tiles_le: "length (tiles line) \<le> length line"
  by (simp add: tiles_def)

lemma length_slideAndCombine_SIZE:
  "length line = SIZE \<Longrightarrow> length (fst (slideAndCombine line st)) = SIZE"
  using length_pairing_le [of "tiles line"] length_tiles_le [of line]
  by (simp add: length_slideAndCombine)

section \<open>A move that changes nothing has no effect\<close>

lemma fold_flag_mono:
  assumes "\<And>x s. fst (f x (True, s))"
  shows "fst (fold f xs (True, s))"
proof (induction xs arbitrary: s)
  case Nil
  show ?case by simp
next
  case (Cons x xs)
  obtain s' where "f x (True, s) = (True, s')"
    using assms [of x s] by (cases "f x (True, s)") auto
  with Cons show ?case by simp
qed

lemma fold_flag_unchanged:
  assumes mono: "\<And>x s. fst (f x (True, s))"
    and keep: "\<And>x. x \<in> set xs \<Longrightarrow> \<not> fst (f x (False, s)) \<Longrightarrow> snd (f x (False, s)) = s \<and> Q x"
    and res: "\<not> fst (fold f xs (False, s))"
  shows "fold f xs (False, s) = (False, s) \<and> (\<forall>x\<in>set xs. Q x)"
  using keep res
proof (induction xs)
  case Nil
  show ?case by simp
next
  case (Cons x xs)
  show ?case
  proof (cases "fst (f x (False, s))")
    case True
    then obtain s' where "f x (False, s) = (True, s')"
      by (cases "f x (False, s)") auto
    with fold_flag_mono [of f xs s', OF mono] Cons.prems(2) show ?thesis by simp
  next
    case False
    with Cons.prems(1) [of x] have fx: "f x (False, s) = (False, s)" and q: "Q x"
      by (cases "f x (False, s)", auto)+
    have "fold f xs (False, s) = (False, s) \<and> (\<forall>x\<in>set xs. Q x)"
    proof (rule Cons.IH)
      fix y assume "y \<in> set xs" "\<not> fst (f y (False, s))"
      then show "snd (f y (False, s)) = s \<and> Q y" using Cons.prems(1) [of y] by simp
    next
      show "\<not> fst (fold f xs (False, s))" using Cons.prems(2) fx by simp
    qed
    with fx q show ?thesis by simp
  qed
qed

lemma tiles_rev: "tiles (rev xs) = rev (tiles xs)"
  by (simp add: tiles_def rev_filter rev_map)

lemma slideAndCombine_no_merge:
  assumes "length (tiles line) \<le> length (tiles (fst (slideAndCombine line st)))"
  shows "snd (slideAndCombine line st) = st"
proof -
  have "length (tiles line) \<le> length (pairing (tiles line))"
    using assms by (simp add: slideAndCombine_closed)
  then have "fold merge_effect (pairing (tiles line)) st = st" by (rule pairing_no_merge)
  then show ?thesis by (simp add: slideAndCombine_closed)
qed

lemma board_merge_effect [simp]: "board (merge_effect g st) = board st"
  by (simp add: merge_effect_def showMessage_def stopTimer_def clearGameState_def Let_def)

lemma board_fold_merge_effect [simp]: "board (fold merge_effect gs st) = board st"
  by (induction gs arbitrary: st) simp_all

lemma board_slideAndCombine [simp]: "board (snd (slideAndCombine line st)) = board st"
  by (simp add: slideAndCombine_closed)

lemma moveLeft_row_mono: "fst (moveLeft_row r (True, s))"
  by (simp add: moveLeft_row_def Let_def split_beta)

lemma moveLeft_row_keep:
  assumes "\<not> fst (moveLeft_row r (False, s))"
  shows "snd (moveLeft_row r (False, s)) = s"
proof -
  have eq: "arraysEqual (board s ! r) (fst (slideAndCombine (board s ! r) s))"
    using assms by (simp add: moveLeft_row_def Let_def split_beta split: if_splits)
  then have "snd (slideAndCombine (board s ! r) s) = s" by (rule slideAndCombine_unchanged)
  with eq show ?thesis by (simp add: moveLeft_row_def Let_def split_beta)
qed

lemma moveLeft_unchanged: "\<not> fst (moveLeft st) \<Longrightarrow> snd (moveLeft st) = st"
  using fold_flag_unchanged [of moveLeft_row "[0..<SIZE]" st "\<lambda>_. True"]
        moveLeft_row_mono moveLeft_row_keep
  by (simp add: moveLeft_def)

lemma moveRight_row_mono: "fst (moveRight_row r (True, s))"
  by (simp add: moveRight_row_def Let_def split_beta)

lemma moveRight_row_keep:
  assumes "\<not> fst (moveRight_row r (False, s))"
  shows "snd (moveRight_row r (False, s)) = s"
proof -
  let ?row = "rev (board s ! r)"
  let ?out = "fst (slideAndCombine ?row s)"
  have eq: "arraysEqual (board s ! r) (rev ?out)"
    using assms by (simp add: moveRight_row_def Let_def split_beta split: if_splits)
  then have "board s ! r = take (length (board s ! r)) (rev ?out)"
    by (simp add: arraysEqual_iff)
  then have "length (tiles (board s ! r)) = length (tiles (take (length (board s ! r)) (rev ?out)))"
    by simp
  also have "\<dots> \<le> length (tiles (rev ?out))" by (rule length_tiles_take)
  finally have "length (tiles ?row) \<le> length (tiles ?out)" by (simp add: tiles_rev)
  then have "snd (slideAndCombine ?row s) = s" by (rule slideAndCombine_no_merge)
  with eq show ?thesis by (simp add: moveRight_row_def Let_def split_beta)
qed

lemma moveRight_unchanged: "\<not> fst (moveRight st) \<Longrightarrow> snd (moveRight st) = st"
  using fold_flag_unchanged [of moveRight_row "[0..<SIZE]" st "\<lambda>_. True"]
        moveRight_row_mono moveRight_row_keep
  by (simp add: moveRight_def)

lemma write_cell_mono: "fst (write_cell c nc r (True, s))"
  by (simp add: write_cell_def)

lemma write_cell_keep:
  "\<not> fst (write_cell c nc r (False, s)) \<Longrightarrow>
   snd (write_cell c nc r (False, s)) = s \<and> board s ! r ! c = nc ! r"
  by (simp add: write_cell_def split: if_splits)

lemma write_column_unchanged:
  assumes "\<not> fst (fold (write_cell c nc) [0..<SIZE] (False, s))" and len: "SIZE \<le> length nc"
  shows "fold (write_cell c nc) [0..<SIZE] (False, s) = (False, s) \<and>
         map (\<lambda>r. board s ! r ! c) [0..<SIZE] = take SIZE nc"
proof -
  have *: "fold (write_cell c nc) [0..<SIZE] (False, s) = (False, s) \<and>
        (\<forall>r\<in>set [0..<SIZE]. board s ! r ! c = nc ! r)"
    using assms(1) write_cell_mono write_cell_keep
    by (intro fold_flag_unchanged) auto
  have "map (\<lambda>r. board s ! r ! c) [0..<SIZE] = take SIZE nc"
    using * len by (intro nth_equalityI) auto
  with * show ?thesis by simp
qed

lemma SIZE_le_slideAndCombine: "SIZE \<le> length (fst (slideAndCombine line st))"
  by (simp add: length_slideAndCombine)

lemma moveUp_col_mono: "fst (moveUp_col c (True, s))"
  by (simp add: moveUp_col_def Let_def split_beta fold_flag_mono write_cell_mono)

lemma moveUp_col_keep:
  assumes "\<not> fst (moveUp_col c (False, s))"
  shows "snd (moveUp_col c (False, s)) = s"
proof -
  let ?col = "map (\<lambda>r. board s ! r ! c) [0..<SIZE]"
  let ?nc = "fst (slideAndCombine ?col s)"
  let ?s1 = "snd (slideAndCombine ?col s)"
  have res: "moveUp_col c (False, s) = fold (write_cell c ?nc) [0..<SIZE] (False, ?s1)"
    by (simp add: moveUp_col_def Let_def split_beta)
  with assms have "\<not> fst (fold (write_cell c ?nc) [0..<SIZE] (False, ?s1))" by simp
  from write_column_unchanged [OF this SIZE_le_slideAndCombine]
  have same: "fold (write_cell c ?nc) [0..<SIZE] (False, ?s1) = (False, ?s1)"
    and col: "?col = take SIZE ?nc" by simp_all
  have "length (tiles ?col) = length (tiles (take SIZE ?nc))" using col by simp
  also have "\<dots> \<le> length (tiles ?nc)" by (rule length_tiles_take)
  finally have "?s1 = s" by (rule slideAndCombine_no_merge)
  with res same show ?thesis by simp
qed

lemma moveUp_unchanged: "\<not> fst (moveUp st) \<Longrightarrow> snd (moveUp st) = st"
  using fold_flag_unchanged [of moveUp_col "[0..<SIZE]" st "\<lambda>_. True"]
        moveUp_col_mono moveUp_col_keep
  by (simp add: moveUp_def)

lemma moveDown_col_mono: "fst (moveDown_col c (True, s))"
  by (simp add: moveDown_col_def Let_def split_beta fold_flag_mono write_cell_mono)

lemma moveDown_col_keep:
  assumes "\<not> fst (moveDown_col c (False, s))"
  shows "snd (moveDown_col c (False, s)) = s"
proof -
  let ?cells = "map (\<lambda>r. board s ! r ! c) [0..<SIZE]"
  let ?out = "fst (slideAndCombine (rev ?cells) s)"
  let ?s1 = "snd (slideAndCombine (rev ?cells) s)"
  have res: "moveDown_col c (False, s) = fold (write_cell c (rev ?out)) [0..<SIZE] (False, ?s1)"
    by (simp add: moveDown_col_def Let_def split_beta)
  with assms have nf: "\<not> fst (fold (write_cell c (rev ?out)) [0..<SIZE] (False, ?s1))" by simp
  have len: "SIZE \<le> length (rev ?out)" using SIZE_le_slideAndCombine [of "rev ?cells" s] by simp
  from write_column_unchanged [OF nf len]
  have same: "fold (write_cell c (rev ?out)) [0..<SIZE] (False, ?s1) = (False, ?s1)"
    and col: "?cells = take SIZE (rev ?out)" by simp_all
  have "length (tiles ?cells) = length (tiles (take SIZE (rev ?out)))" using col by simp
  also have "\<dots> \<le> length (tiles (rev ?out))" by (rule length_tiles_take)
  finally have "length (tiles (rev ?cells)) \<le> length (tiles ?out)" by (simp add: tiles_rev)
  then have "?s1 = s" by (rule slideAndCombine_no_merge)
  with res same show ?thesis by simp
qed

lemma moveDown_unchanged: "\<not> fst (moveDown st) \<Longrightarrow> snd (moveDown st) = st"
  using fold_flag_unchanged [of moveDown_col "[0..<SIZE]" st "\<lambda>_. True"]
        moveDown_col_mono moveDown_col_keep
  by (simp add: moveDown_def)

lemma move_unchanged: "\<not> fst (move k st) \<Longrightarrow> snd (move k st) = st"
  by (cases k)
     (simp_all add: move_def moveLeft_unchanged moveRight_unchanged moveUp_unchanged
        moveDown_unchanged)

lemma SIZE_Suc: "SIZE = Suc (Suc (Suc (Suc 0)))"
  by (simp add: SIZE_def)

lemma pairing_distinct_adj: "distinct_adj vs \<Longrightarrow> pairing vs = map (\<lambda>x. [x]) vs"
  by (induction vs rule: pairing.induct) auto

lemma pairing_length_distinct_adj: "length vs \<le> length (pairing vs) \<Longrightarrow> distinct_adj vs"
proof (induction vs rule: pairing.induct)
  case (1 x y zs)
  show ?case
  proof (cases "x = y")
    case True
    with "1.prems" length_pairing_le [of zs] show ?thesis by simp
  next
    case False
    with 1 show ?thesis by simp
  qed
qed simp_all

lemma tiles_slideAndCombine:
  "tiles (fst (slideAndCombine line st)) = map sum_list (pairing (tiles line))"
  by (simp add: slideAndCombine_closed)

section \<open>One sweep merges a tile at most once\<close>

text \<open>
  Claim C1. A single call of \<open>slideAndCombine\<close> never merges again a tile that a merge of
  the same sweep produced. For every line (of any length) the tiles of the input split,
  in order, into groups that are a single tile or a pair of equal tiles; the output is
  the list of the sums of the groups, padded with \<open>null\<close> to \<open>SIZE\<close>, and the score
  grows by the sum of the pairs. So every tile of the output is a tile of the input or
  the double of two equal neighbours of the input, never the double of a double. In
  particular \<open>[2,2,2,2]\<close> gives \<open>[4,4,null,null]\<close> and adds exactly 8 to the score.
\<close>

theorem slideAndCombine_merges_once:
  "(\<exists>gs. concat gs = tiles line \<and> (\<forall>g\<in>set gs. \<exists>x. g = [x] \<or> g = [x, x]) \<and>
      fst (slideAndCombine line st) = map Some (map sum_list gs) @ replicate (SIZE - length gs) None \<and>
      score (snd (slideAndCombine line st)) =
        score st + sum_list (map sum_list (filter (\<lambda>g. length g = 2) gs))) \<and>
   fst (slideAndCombine [Some 2, Some 2, Some 2, Some 2] st) = [Some 4, Some 4, None, None] \<and>
   score (snd (slideAndCombine [Some 2, Some 2, Some 2, Some 2] st)) = score st + 8"
proof (intro conjI)
  show "\<exists>gs. concat gs = tiles line \<and> (\<forall>g\<in>set gs. \<exists>x. g = [x] \<or> g = [x, x]) \<and>
      fst (slideAndCombine line st) = map Some (map sum_list gs) @ replicate (SIZE - length gs) None \<and>
      score (snd (slideAndCombine line st)) =
        score st + sum_list (map sum_list (filter (\<lambda>g. length g = 2) gs))"
  proof (intro exI [of _ "pairing (tiles line)"] conjI)
    show "concat (pairing (tiles line)) = tiles line" by (rule concat_pairing)
    show "\<forall>g\<in>set (pairing (tiles line)). \<exists>x. g = [x] \<or> g = [x, x]"
      using pairing_groups by blast
    show "fst (slideAndCombine line st) =
          map Some (map sum_list (pairing (tiles line))) @
          replicate (SIZE - length (pairing (tiles line))) None"
      by (simp add: slideAndCombine_closed)
    show "score (snd (slideAndCombine line st)) =
          score st + sum_list (map sum_list (filter (\<lambda>g. length g = 2) (pairing (tiles line))))"
      by (simp add: slideAndCombine_closed score_fold_merge_effect)
  qed
  show "fst (slideAndCombine [Some 2, Some 2, Some 2, Some 2] st) = [Some 4, Some 4, None, None]"
    by (simp add: slideAndCombine_closed tiles_def SIZE_Suc)
  show "score (snd (slideAndCombine [Some 2, Some 2, Some 2, Some 2] st)) = score st + 8"
    by (simp add: slideAndCombine_closed tiles_def score_merge_effect)
qed

theorem slideAndCombine_merges_once_witness:
  "\<exists>gs. concat gs = tiles line_2224 \<and> (\<forall>g\<in>set gs. \<exists>x. g = [x] \<or> g = [x, x]) \<and>
      fst (slideAndCombine line_2224 (initial False None None)) =
        map Some (map sum_list gs) @ replicate (SIZE - length gs) None \<and>
      score (snd (slideAndCombine line_2224 (initial False None None))) =
        score (initial False None None) + sum_list (map sum_list (filter (\<lambda>g. length g = 2) gs))"
  by (rule slideAndCombine_merges_once [of line_2224 "initial False None None", THEN conjunct1])

section \<open>A second sweep over the result\<close>

text \<open>
  Claim C2, as amended. Applying \<open>slideAndCombine\<close> to its own output returns that
  output exactly when the output has no two equal neighbouring tiles; then the state
  (score, win flag, overlay) is unchanged too. When two neighbours of the output are
  equal the second call merges them.
\<close>

theorem slideAndCombine_again:
  assumes "out = fst (slideAndCombine line st)"
  shows "(fst (slideAndCombine out st') = out) = distinct_adj (tiles out) \<and>
         (distinct_adj (tiles out) \<longrightarrow> slideAndCombine out st' = (out, st'))"
proof -
  let ?ws = "tiles out"
  have out: "out = map Some ?ws @ replicate (SIZE - length ?ws) None"
    using assms by (simp add: slideAndCombine_closed)
  have fwd: "slideAndCombine out st' = (out, st')" if "distinct_adj ?ws"
  proof -
    have p: "pairing ?ws = map (\<lambda>x. [x]) ?ws" using that by (rule pairing_distinct_adj)
    have "length ?ws \<le> length (pairing ?ws)" by (simp add: p)
    then have eff: "fold merge_effect (pairing ?ws) st' = st'" by (rule pairing_no_merge)
    have "map sum_list (pairing ?ws) = ?ws" by (simp add: p comp_def)
    with eff have "slideAndCombine out st' =
        (map Some ?ws @ replicate (SIZE - length ?ws) None, st')"
      by (simp add: slideAndCombine_closed p)
    with out show ?thesis by simp
  qed
  have bwd: "distinct_adj ?ws" if "fst (slideAndCombine out st') = out"
  proof -
    have "tiles (fst (slideAndCombine out st')) = ?ws" using that by simp
    then have "map sum_list (pairing ?ws) = ?ws" by (simp add: tiles_slideAndCombine)
    then have "length (pairing ?ws) = length ?ws" by (metis length_map)
    then show ?thesis by (simp add: pairing_length_distinct_adj)
  qed
  from fwd bwd show ?thesis by auto
qed

text \<open>The claim as stated fails: \<open>[2,2,2,2]\<close> becomes \<open>[4,4,null,null]\<close>, and a second call
  turns that into \<open>[8,null,null,null]\<close>.\<close>

theorem slideAndCombine_not_idempotent:
  "fst (slideAndCombine (fst (slideAndCombine [Some 2, Some 2, Some 2, Some 2] (initial False None None)))
         (snd (slideAndCombine [Some 2, Some 2, Some 2, Some 2] (initial False None None))))
   \<noteq> fst (slideAndCombine [Some 2, Some 2, Some 2, Some 2] (initial False None None))"
  by (simp add: slideAndCombine_closed tiles_def SIZE_Suc)

lemma line_2224_out:
  "fst (slideAndCombine line_2224 (initial False None None)) = [Some 4, Some 4, None, None]"
  by (simp add: line_2224_def slideAndCombine_closed tiles_def SIZE_Suc)

theorem slideAndCombine_again_witness:
  "[Some 2, Some 4, None, None] = fst (slideAndCombine [Some 2, None, Some 4, None] (initial False None None)) \<and>
   (fst (slideAndCombine [Some 2, Some 4, None, None] (initial False None None)) = [Some 2, Some 4, None, None])
     = distinct_adj (tiles [Some 2, Some 4, None, None]) \<and>
   distinct_adj (tiles [Some 2, Some 4, None, None]) \<and>
   slideAndCombine [Some 2, Some 4, None, None] (initial False None None) =
     ([Some 2, Some 4, None, None], initial False None None)"
proof -
  have h: "[Some 2, Some 4, None, None] =
           fst (slideAndCombine [Some 2, None, Some 4, None] (initial False None None))"
    by (simp add: slideAndCombine_closed tiles_def SIZE_Suc)
  have d: "distinct_adj (tiles [Some 2, Some 4, None, None])"
    by (simp add: tiles_def)
  note t = slideAndCombine_again [OF h, of "initial False None None"]
  from t d have "slideAndCombine [Some 2, Some 4, None, None] (initial False None None) =
     ([Some 2, Some 4, None, None], initial False None None)" by blast
  with h t d show ?thesis by blast
qed

section \<open>A key that moves nothing\<close>

text \<open>
  Claim C3. When the move function of the key reports no change, \<open>handleKey\<close> returns
  the state it was given: board, score, win flag, history, undo counter, timer, overlay
  and both keys of localStorage are what they were, so no snapshot was pushed, no tile
  spawned and nothing saved.
\<close>

theorem handleKey_unchanged_noop:
  assumes "wf_board (board st)" and "\<not> fst (move k st)"
  shows "handleKey k d st = st"
  using assms(2) by (simp add: handleKey_def Let_def split_beta move_unchanged)

lemma c3_wf: "wf_board (board c3_state)"
  by (simp add: c3_state_def wf_board_def SIZE_def)

lemma c3_not_moved: "\<not> fst (move ArrowLeft c3_state)"
  by (simp add: move_def moveLeft_def moveLeft_row_def SIZE_Suc slideAndCombine_closed tiles_def
       arraysEqual_def js_index_def c3_state_def initial_def Let_def)

theorem handleKey_unchanged_noop_witness:
  "wf_board (board c3_state) \<and> \<not> fst (move ArrowLeft c3_state) \<and>
   handleKey ArrowLeft (0, True) c3_state = c3_state"
  by (intro conjI c3_wf c3_not_moved handleKey_unchanged_noop [OF c3_wf c3_not_moved])

section \<open>What a move leaves alone\<close>

lemma move_frame_refl [simp]: "move_frame s s"
  by (simp add: move_frame_def)

lemma move_frame_trans: "move_frame s t \<Longrightarrow> move_frame t u \<Longrightarrow> move_frame s u"
  by (simp add: move_frame_def)

lemma move_frame_board [simp]: "move_frame s (t\<lparr>board := b\<rparr>) = move_frame s t"
  by (simp add: move_frame_def)

lemma move_frame_merge_effect: "move_frame s (merge_effect g s)"
  by (simp add: move_frame_def merge_effect_def showMessage_def Let_def)

lemma move_frame_fold_merge_effect: "move_frame s (fold merge_effect gs s)"
proof (induction gs arbitrary: s)
  case Nil
  show ?case by simp
next
  case (Cons g gs)
  have "move_frame s (merge_effect g s)" by (rule move_frame_merge_effect)
  moreover have "move_frame (merge_effect g s) (fold merge_effect gs (merge_effect g s))"
    by (rule Cons.IH)
  ultimately show ?case using move_frame_trans by simp
qed

lemma move_frame_slideAndCombine: "move_frame s (snd (slideAndCombine line s))"
  by (simp add: slideAndCombine_closed move_frame_fold_merge_effect)

lemma fold_move_frame:
  assumes "\<And>x ch s. move_frame s (snd (f x (ch, s)))"
  shows "move_frame s (snd (fold f xs (ch, s)))"
proof (induction xs arbitrary: ch s)
  case Nil
  show ?case by simp
next
  case (Cons x xs)
  obtain ch' s' where fx: "f x (ch, s) = (ch', s')" by (cases "f x (ch, s)")
  have "move_frame s s'" using assms [of s x ch] fx by simp
  moreover have "move_frame s' (snd (fold f xs (ch', s')))" by (rule Cons.IH)
  ultimately show ?case using fx move_frame_trans by simp
qed

lemma move_frame_moveLeft_row: "move_frame s (snd (moveLeft_row r (ch, s)))"
  by (simp add: moveLeft_row_def Let_def split_beta move_frame_slideAndCombine)

lemma move_frame_moveRight_row: "move_frame s (snd (moveRight_row r (ch, s)))"
  by (simp add: moveRight_row_def Let_def split_beta move_frame_slideAndCombine)

lemma move_frame_write_cell: "move_frame s (snd (write_cell c nc r (ch, s)))"
  by (simp add: write_cell_def)

lemma move_frame_moveUp_col: "move_frame s (snd (moveUp_col c (ch, s)))"
proof -
  let ?col = "map (\<lambda>r. board s ! r ! c) [0..<SIZE]"
  have "move_frame s (snd (slideAndCombine ?col s))" by (rule move_frame_slideAndCombine)
  moreover have "move_frame (snd (slideAndCombine ?col s))
      (snd (fold (write_cell c (fst (slideAndCombine ?col s))) [0..<SIZE]
              (ch, snd (slideAndCombine ?col s))))"
    by (rule fold_move_frame) (rule move_frame_write_cell)
  ultimately show ?thesis
    using move_frame_trans by (simp add: moveUp_col_def Let_def split_beta)
qed

lemma move_frame_moveDown_col: "move_frame s (snd (moveDown_col c (ch, s)))"
proof -
  let ?col = "rev (map (\<lambda>r. board s ! r ! c) [0..<SIZE])"
  have "move_frame s (snd (slideAndCombine ?col s))" by (rule move_frame_slideAndCombine)
  moreover have "move_frame (snd (slideAndCombine ?col s))
      (snd (fold (write_cell c (rev (fst (slideAndCombine ?col s)))) [0..<SIZE]
              (ch, snd (slideAndCombine ?col s))))"
    by (rule fold_move_frame) (rule move_frame_write_cell)
  ultimately show ?thesis
    using move_frame_trans by (simp add: moveDown_col_def Let_def split_beta)
qed

lemma move_frame_move: "move_frame s (snd (move k s))"
  by (cases k)
     (simp_all add: move_def moveLeft_def moveRight_def moveUp_def moveDown_def
        fold_move_frame move_frame_moveLeft_row move_frame_moveRight_row
        move_frame_moveUp_col move_frame_moveDown_col)

section \<open>The invariant of the reachable states\<close>

lemma spawnTile_fields [simp]:
  "score (spawnTile d s) = score s"
  "bestScore (spawnTile d s) = bestScore s"
  "won (spawnTile d s) = won s"
  "historyStack (spawnTile d s) = historyStack s"
  "undosRemaining (spawnTile d s) = undosRemaining s"
  "isTimedGame (spawnTile d s) = isTimedGame s"
  "timeRemaining (spawnTile d s) = timeRemaining s"
  "timerInterval (spawnTile d s) = timerInterval s"
  "messageText (spawnTile d s) = messageText s"
  "messageShown (spawnTile d s) = messageShown s"
  "ls_bestScore (spawnTile d s) = ls_bestScore s"
  "ls_gameState (spawnTile d s) = ls_gameState s"
  by (simp_all add: spawnTile_def Let_def split_beta)

lemma handleKey_moved:
  "\<not> messageShown st \<Longrightarrow> fst (move k st) \<Longrightarrow>
   handleKey k d st =
     (let st5 = saveGameState (updateScoreDisplay (spawnTile d
                  (push_history (take_snapshot st) (snd (move k st)))))
      in if isGameOver st5 then showMessage GameOver st5 else st5)"
  by (simp add: handleKey_def Let_def split_beta)

lemma inv_handleKey: assumes "state_inv st" shows "state_inv (handleKey k d st)"
proof (cases "\<not> messageShown st \<and> fst (move k st)")
  case False
  then have "handleKey k d st = st"
    by (auto simp add: handleKey_def Let_def split_beta move_unchanged)
  with assms show ?thesis by simp
next
  case True
  define m where "m = snd (move k st)"
  have fr: "move_frame st m" unfolding m_def by (rule move_frame_move)
  from True have hk: "handleKey k d st =
     (let st5 = saveGameState (updateScoreDisplay (spawnTile d (push_history (take_snapshot st) m)))
      in if isGameOver st5 then showMessage GameOver st5 else st5)"
    unfolding m_def by (simp add: handleKey_moved)
  show ?thesis
    using assms fr unfolding hk
    by (auto simp add: state_inv_def saved_ok_def move_frame_def Let_def saveGameState_def
        updateScoreDisplay_def push_history_def showMessage_def clearGameState_def stopTimer_def
        split: option.splits)
qed


lemma snapshot_copy [simp]:
  "map (\<lambda>item. \<lparr>snap_board = snap_board item, snap_score = snap_score item,
           snap_timeRemaining = snap_timeRemaining item,
           snap_isTimedGame = snap_isTimedGame item\<rparr>) h = h"
  by (induction h) simp_all

lemma inv_undoMove: "state_inv st \<Longrightarrow> state_inv (undoMove st)"
  by (auto simp add: state_inv_def saved_ok_def undoMove_def Let_def saveGameState_def
      updateScoreDisplay_def startTimer_def stopTimer_def split: option.splits)

lemma inv_resumeGame: "state_inv st \<Longrightarrow> state_inv (resumeGame st)"
  by (auto simp add: state_inv_def saved_ok_def resumeGame_def Let_def hideMessage_def
      updateScoreDisplay_def startTimer_def stopTimer_def split: option.splits)

lemma inv_startGame: "state_inv st \<Longrightarrow> state_inv (startGame timed cm d1 d2 st)"
  by (auto simp add: state_inv_def saved_ok_def startGame_def initGame_def Let_def hideMessage_def
      saveGameState_def clearGameState_def updateScoreDisplay_def startTimer_def stopTimer_def
      split: option.splits)

lemma inv_tick: "state_inv st \<Longrightarrow> state_inv (tick st)"
  by (auto simp add: state_inv_def saved_ok_def tick_def Let_def saveGameState_def showMessage_def
      clearGameState_def stopTimer_def split: option.splits timer.splits)

lemma inv_keepPlaying: "state_inv st \<Longrightarrow> state_inv (keepPlaying st)"
  by (auto simp add: state_inv_def saved_ok_def keepPlaying_def Let_def hideMessage_def
      split: option.splits)

lemma inv_homeBtn: "state_inv st \<Longrightarrow> state_inv (homeBtn st)"
  by (auto simp add: state_inv_def saved_ok_def homeBtn_def Let_def saveGameState_def stopTimer_def
      split: option.splits)

lemma inv_exitBtn: "state_inv st \<Longrightarrow> state_inv (exitBtn st)"
  by (auto simp add: state_inv_def exitBtn_def clearGameState_def)

lemma inv_pageLoad: "state_inv st \<Longrightarrow> state_inv (pageLoad shown st)"
  by (auto simp add: state_inv_def saved_ok_def pageLoad_def initStorage_def initial_def
      updateScoreDisplay_def split: option.splits)

lemma inv_first: "state_inv (initStorage (initial shown None None))"
  by (simp add: state_inv_def initStorage_def initial_def updateScoreDisplay_def)

lemma inv_fire: "state_inv st \<Longrightarrow> state_inv (fire e st)"
  by (cases e)
     (simp_all add: inv_handleKey inv_undoMove inv_resumeGame inv_startGame inv_tick
        inv_keepPlaying inv_homeBtn inv_exitBtn inv_pageLoad)

lemma reachable_inv: "reachable st \<Longrightarrow> state_inv st"
  by (induction rule: reachable.induct) (simp_all add: inv_first inv_fire)

section \<open>Evaluating the model on concrete states\<close>




















section \<open>The best score never decreases\<close>




section \<open>The win flag is sticky\<close>







lemma won_resumeGame: "reachable st \<Longrightarrow> won st \<Longrightarrow> won (resumeGame st)"
  by (drule reachable_inv)
     (auto simp add: state_inv_def saved_ok_def resumeGame_def Let_def hideMessage_def
        updateScoreDisplay_def startTimer_def stopTimer_def split: option.splits)



section \<open>The history stack\<close>








section \<open>The undo budget\<close>




section \<open>Saving and resuming\<close>


section \<open>After the game has ended\<close>




section \<open>The game stored by a new game\<close>




end
